theory Spec2Isabelle
  imports Main "HOL-Library.Word" "HOL-Library.Sublist"
begin

section \<open>The stylesheet processor worker\<close>

text \<open>
  A shallow embedding of \<^verbatim>\<open>src/lib/styles/stylesheet-processor-worker.ts\<close>.
  The worker receives one message per job, renders the stylesheet named by the
  message, runs the postcss chain over it, posts the result on the reply port and
  signals the shared completion cell.

  The preprocessors, postcss, the file system and the module loader are external
  collaborators: they are fields of an environment record, and every call to one of
  them is logged, so that the order of the calls can be stated.
\<close>

subsection \<open>Platform functions: \<^verbatim>\<open>path.extname\<close> and \<^verbatim>\<open>String.prototype.replace\<close>\<close>

text \<open>
  \<^verbatim>\<open>path.extname\<close> belongs to the Node.js runtime (POSIX variant,
  \<^verbatim>\<open>lib/path.js\<close>). It scans the path from its last character to its first and
  keeps five variables; the scan stops at the first slash that follows a character
  of the last path component.
\<close>

record ext_state =
  startDot :: int
  startPart :: int
  end_pos :: int
  matchedSlash :: bool
  preDotState :: int

definition ext_init :: ext_state where
  "ext_init = \<lparr>startDot = -1, startPart = 0, end_pos = -1, matchedSlash = True, preDotState = 0\<rparr>"

text \<open>One iteration of the loop body at index \<open>i\<close> for a character that is not a slash.\<close>

definition ext_step :: "char \<Rightarrow> nat \<Rightarrow> ext_state \<Rightarrow> ext_state" where
  "ext_step code i s =
     (let s1 = (if end_pos s = -1 then s\<lparr>matchedSlash := False, end_pos := int i + 1\<rparr> else s)
      in if code = CHR ''.'' then
           (if startDot s1 = -1 then s1\<lparr>startDot := int i\<rparr>
            else if preDotState s1 \<noteq> 1 then s1\<lparr>preDotState := 1\<rparr>
            else s1)
         else if startDot s1 \<noteq> -1 then s1\<lparr>preDotState := -1\<rparr>
         else s1)"

text \<open>
  \<open>ext_loop path n s\<close> runs the iterations \<open>i = n - 1, ..., 0\<close>; the first
  equation is the loop's exit, the \<^verbatim>\<open>break\<close> is the branch that does not recurse.
\<close>

fun ext_loop :: "string \<Rightarrow> nat \<Rightarrow> ext_state \<Rightarrow> ext_state" where
  "ext_loop path 0 s = s"
| "ext_loop path (Suc i) s =
     (if path ! i = CHR ''/'' then
        (if \<not> matchedSlash s then s\<lparr>startPart := int i + 1\<rparr>
         else ext_loop path i s)
      else ext_loop path i (ext_step (path ! i) i s))"

definition extname :: "string \<Rightarrow> string" where
  "extname path =
     (let s = ext_loop path (length path) ext_init
      in if startDot s = -1 \<or> end_pos s = -1 \<or> preDotState s = 0 \<or>
            (preDotState s = 1 \<and> startDot s = end_pos s - 1 \<and> startDot s = startPart s + 1)
         then []
         else take (nat (end_pos s) - nat (startDot s)) (drop (nat (startDot s)) path))"

text \<open>
  \<^verbatim>\<open>str.replace(pattern, replacement)\<close> with a string pattern replaces the first
  occurrence of the pattern, searched from the left; the empty pattern occurs at
  position 0. The replacement is inserted as it is when it holds no dollar sign, which
  is so for the one replacement the worker uses.
\<close>

fun String_replace :: "string \<Rightarrow> string \<Rightarrow> string \<Rightarrow> string" where
  "String_replace [] pat rep = (if pat = [] then rep else [])"
| "String_replace (c # cs) pat rep =
     (if prefix pat (c # cs) then rep @ drop (length pat) (c # cs)
      else c # String_replace cs pat rep)"

subsection \<open>The data of a job\<close>

text \<open>
  Modelled from the spec: the enum \<^verbatim>\<open>CssUrl\<close> is declared in
  \<^verbatim>\<open>./stylesheet-processor\<close>, which is not among the sources; the spec gives its
  values as none, inline and rebase-relative.
\<close>

datatype CssUrl = CssUrl_none | CssUrl_inline | CssUrl_rebase_relative

text \<open>
  The fields of \<^verbatim>\<open>WorkerOptions\<close> are the ones \<^verbatim>\<open>processCss\<close> destructures.
  \<^verbatim>\<open>cssUrl\<close> and \<^verbatim>\<open>styleIncludePaths\<close> are optional parameters of
  \<^verbatim>\<open>optimizeCss\<close> and \<^verbatim>\<open>renderCss\<close>: \<open>None\<close> is \<^verbatim>\<open>undefined\<close>.
\<close>

record WorkerOptions =
  filePath :: string
  browserslistData :: "string list"
  cssUrl :: "CssUrl option"
  styleIncludePaths :: "string list option"
  basePath :: string

record WorkerResult =
  css :: string
  warnings :: "string list"

datatype error = Error string | TypeError string | RangeError string

text \<open>A loaded package, as \<^verbatim>\<open>require\<close> or \<^verbatim>\<open>import\<close> returns it.\<close>

datatype module = Module string

subsubsection \<open>What the preprocessors are given\<close>

text \<open>The options of \<^verbatim>\<open>renderSync\<close>; \<open>sass_file\<close> is the field \<^verbatim>\<open>file\<close>.\<close>

record sass_options =
  sass_file :: string
  data :: string
  indentedSyntax :: bool
  importer :: module
  includePaths :: "string list option"

record less_options =
  filename :: string
  javascriptEnabled :: bool
  paths :: "string list option"

record resolver_options =
  nocheck :: bool
  resolver_paths :: "string list"

datatype stylus_value = SPaths "string list" | SString string | SBool bool

datatype stylus_function = resolver "resolver_options option"

text \<open>
  A Stylus renderer: the source string, the options written by \<^verbatim>\<open>set\<close> and the
  globals written by \<^verbatim>\<open>define\<close>.
\<close>

record Renderer =
  str :: string
  options :: "string \<rightharpoonup> stylus_value"
  globals :: "string \<rightharpoonup> stylus_function"

definition stylus :: "string \<Rightarrow> Renderer" where
  "stylus s = \<lparr>str = s, options = Map.empty, globals = Map.empty\<rparr>"

definition stylus_set :: "string \<Rightarrow> stylus_value \<Rightarrow> Renderer \<Rightarrow> Renderer" where
  "stylus_set k v r = r\<lparr>options := (options r)(k \<mapsto> v)\<rparr>"

definition stylus_define :: "string \<Rightarrow> stylus_function \<Rightarrow> Renderer \<Rightarrow> Renderer" where
  "stylus_define k f r = r\<lparr>globals := (globals r)(k \<mapsto> f)\<rparr>"

subsubsection \<open>What postcss is given\<close>

record postcssUrl_options =
  url :: "CssUrl option"

record postcssPresetEnv_options =
  browsers :: "string list"
  autoprefixer :: bool
  stage :: nat

record cssnano_preset_options =
  svgo :: bool
  calc :: bool

record cssnano_options =
  preset :: "string \<times> cssnano_preset_options"

text \<open>
  A plugin object, as one of the three plugin factories returns it. What a factory
  returns for which options is up to the package; the worker only collects the objects.
\<close>

datatype plugin = Plugin string

text \<open>The fields \<^verbatim>\<open>from\<close> and \<^verbatim>\<open>to\<close> of the options of \<^verbatim>\<open>process\<close>.\<close>

record ProcessOptions =
  from_path :: string
  to_path :: string

text \<open>A postcss warning, by the string its \<^verbatim>\<open>toString()\<close> returns.\<close>

datatype Warning = Warning string

fun toString :: "Warning \<Rightarrow> string" where
  "toString (Warning s) = s"

record Result =
  result_css :: string
  result_warnings :: "Warning list"

subsection \<open>Effects\<close>

text \<open>
  Every call that leaves the worker is an event. The last four are the calls of the
  message handler on the reply port and on the shared array.
\<close>

datatype event =
    ReadFile string
  | Require string
  | Import string
  | SassRenderSync module sass_options
  | LessRender module string less_options
  | StylusRender Renderer
  | PostcssUrl postcssUrl_options
  | PostcssPresetEnv postcssPresetEnv_options
  | Cssnano cssnano_options
  | PostcssProcess "plugin list" string ProcessOptions
  | PostMessage WorkerResult
  | PortClose
  | AtomicsAdd nat "32 word"
  | AtomicsNotify nat

text \<open>
  The objects a job shares with the host: the \<^verbatim>\<open>Int32Array\<close> \<open>signal\<close> over shared
  memory, the reply port with the messages queued on it, the number of wake
  notifications issued, and the log of events.
\<close>

record world =
  signal :: "32 word list"
  port_queue :: "WorkerResult list"
  port_closed :: bool
  wakeups :: nat
  trace :: "event list"

text \<open>
  An asynchronous computation either fulfils with a value or rejects with an error,
  and changes the world. \<open>js_bind\<close> is \<^verbatim>\<open>await\<close> followed by the rest of the
  function body: a rejection skips the rest. \<open>js_catch\<close> is \<^verbatim>\<open>try/catch\<close>.
\<close>

type_synonym 'a js = "world \<Rightarrow> (error + 'a) \<times> world"

definition js_return :: "'a \<Rightarrow> 'a js" where
  "js_return x = (\<lambda>w. (Inr x, w))"

definition js_throw :: "error \<Rightarrow> 'a js" where
  "js_throw e = (\<lambda>w. (Inl e, w))"

definition js_bind :: "'a js \<Rightarrow> ('a \<Rightarrow> 'b js) \<Rightarrow> 'b js" where
  "js_bind m f = (\<lambda>w. case m w of (Inl e, w') \<Rightarrow> (Inl e, w') | (Inr x, w') \<Rightarrow> f x w')"

definition js_catch :: "'a js \<Rightarrow> (error \<Rightarrow> 'a js) \<Rightarrow> 'a js" where
  "js_catch m h = (\<lambda>w. case m w of (Inl e, w') \<Rightarrow> h e w' | (Inr x, w') \<Rightarrow> (Inr x, w'))"

definition emit :: "event \<Rightarrow> unit js" where
  "emit ev = (\<lambda>w. (Inr (), w\<lparr>trace := trace w @ [ev]\<rparr>))"

text \<open>A call to a collaborator: the call is logged, then its outcome is the result.\<close>

definition call :: "event \<Rightarrow> error + 'a \<Rightarrow> 'a js" where
  "call ev r = js_bind (emit ev) (\<lambda>_. case r of Inl e \<Rightarrow> js_throw e | Inr x \<Rightarrow> js_return x)"

subsection \<open>The collaborators\<close>

record env =
  fs_readFile :: "string \<Rightarrow> error + string"
  resolve_module :: "string \<Rightarrow> bool"
  sass_renderSync :: "module \<Rightarrow> sass_options \<Rightarrow> error + string"
  less_render :: "module \<Rightarrow> string \<Rightarrow> less_options \<Rightarrow> error + string"
  stylus_render :: "Renderer \<Rightarrow> error + string"
  postcss_url :: "postcssUrl_options \<Rightarrow> error + plugin"
  postcss_preset_env :: "postcssPresetEnv_options \<Rightarrow> error + plugin"
  cssnano_preset :: "cssnano_options \<Rightarrow> error + plugin"
  postcss_process :: "plugin list \<Rightarrow> string \<Rightarrow> ProcessOptions \<Rightarrow> error + Result"

definition readFile :: "env \<Rightarrow> string \<Rightarrow> string js" where
  "readFile env p = call (ReadFile p) (fs_readFile env p)"

definition load_module :: "env \<Rightarrow> string \<Rightarrow> error + module" where
  "load_module env name =
     (if resolve_module env name then Inr (Module name)
      else Inl (Error (''Cannot find module '' @ name)))"

definition require :: "env \<Rightarrow> string \<Rightarrow> module js" where
  "require env name = call (Require name) (load_module env name)"

definition import_module :: "env \<Rightarrow> string \<Rightarrow> module js" where
  "import_module env name = call (Import name) (load_module env name)"

definition renderSync :: "env \<Rightarrow> module \<Rightarrow> sass_options \<Rightarrow> string js" where
  "renderSync env m opts = call (SassRenderSync m opts) (sass_renderSync env m opts)"

definition render_less :: "env \<Rightarrow> module \<Rightarrow> string \<Rightarrow> less_options \<Rightarrow> string js" where
  "render_less env m content opts = call (LessRender m content opts) (less_render env m content opts)"

definition render_stylus :: "env \<Rightarrow> Renderer \<Rightarrow> string js" where
  "render_stylus env r = call (StylusRender r) (stylus_render env r)"

text \<open>
  The plugin factories \<^verbatim>\<open>postcssUrl(...)\<close>, \<^verbatim>\<open>postcssPresetEnv(...)\<close> and
  \<^verbatim>\<open>cssnano(...)\<close>: each is a call into its package and may throw, as the preset
  factory does for a browser query it does not know.
\<close>

definition postcssUrl :: "env \<Rightarrow> postcssUrl_options \<Rightarrow> plugin js" where
  "postcssUrl env opts = call (PostcssUrl opts) (postcss_url env opts)"

definition postcssPresetEnv :: "env \<Rightarrow> postcssPresetEnv_options \<Rightarrow> plugin js" where
  "postcssPresetEnv env opts = call (PostcssPresetEnv opts) (postcss_preset_env env opts)"

definition cssnano :: "env \<Rightarrow> cssnano_options \<Rightarrow> plugin js" where
  "cssnano env opts = call (Cssnano opts) (cssnano_preset env opts)"

definition process :: "env \<Rightarrow> plugin list \<Rightarrow> string \<Rightarrow> ProcessOptions \<Rightarrow> Result js" where
  "process env plugins c opts = call (PostcssProcess plugins c opts) (postcss_process env plugins c opts)"

text \<open>
  \<^verbatim>\<open>[basePath, '.', ...styleIncludePaths, 'node_modules']\<close>: spreading
  \<^verbatim>\<open>undefined\<close> into an array literal throws a TypeError.
\<close>

definition stylus_paths :: "string \<Rightarrow> string list option \<Rightarrow> error + string list" where
  "stylus_paths bp incs =
     (case incs of
        None \<Rightarrow> Inl (TypeError ''styleIncludePaths is not iterable'')
      | Some ps \<Rightarrow> Inr ([bp, ''.''] @ ps @ [''node_modules'']))"

subsection \<open>The reply port and the shared array\<close>

text \<open>A message posted on a closed port is dropped.\<close>

definition port_postMessage :: "WorkerResult \<Rightarrow> unit js" where
  "port_postMessage r =
     (\<lambda>w. (Inr (), w\<lparr>port_queue := (if port_closed w then port_queue w else port_queue w @ [r]),
                     trace := trace w @ [PostMessage r]\<rparr>))"

definition port_close :: "unit js" where
  "port_close = (\<lambda>w. (Inr (), w\<lparr>port_closed := True, trace := trace w @ [PortClose]\<rparr>))"

text \<open>
  \<^verbatim>\<open>Atomics.add(signal, i, v)\<close> adds modulo \<open>2 ^ 32\<close> and returns the old value;
  an index outside the array throws a RangeError, as it does for
  \<^verbatim>\<open>Atomics.notify(signal, i)\<close>.
\<close>

definition Atomics_add :: "nat \<Rightarrow> 32 word \<Rightarrow> (32 word) js" where
  "Atomics_add i v =
     (\<lambda>w. if i < length (signal w)
          then (Inr (signal w ! i),
                w\<lparr>signal := (signal w)[i := signal w ! i + v], trace := trace w @ [AtomicsAdd i v]\<rparr>)
          else (Inl (RangeError ''Invalid atomic access index''), w))"

definition Atomics_notify :: "nat \<Rightarrow> unit js" where
  "Atomics_notify i =
     (\<lambda>w. if i < length (signal w)
          then (Inr (), w\<lparr>wakeups := wakeups w + 1, trace := trace w @ [AtomicsNotify i]\<rparr>)
          else (Inl (RangeError ''Invalid atomic access index''), w))"

subsection \<open>The worker\<close>

definition renderCss :: "env \<Rightarrow> string \<Rightarrow> string \<Rightarrow> string list option \<Rightarrow> string js" where
  "renderCss env fp bp incs =
     (let ext = extname fp in
      js_bind (readFile env fp) (\<lambda>content.
        if ext = ''.sass'' \<or> ext = ''.scss'' then
          js_bind (js_catch (require env ''node-sass'') (\<lambda>_. import_module env ''sass'')) (\<lambda>sassCompiler.
          js_bind (import_module env ''node-sass-tilde-importer'') (\<lambda>tilde.
            renderSync env sassCompiler
              \<lparr>sass_file = fp, data = content, indentedSyntax = (''.sass'' = ext),
               importer = tilde, includePaths = incs\<rparr>))
        else if ext = ''.less'' then
          js_bind (import_module env ''less'') (\<lambda>less.
            render_less env less content
              \<lparr>filename = fp, javascriptEnabled = True, paths = incs\<rparr>)
        else if ext = ''.styl'' \<or> ext = ''.stylus'' then
          js_bind (import_module env ''stylus'') (\<lambda>_.
            case stylus_paths bp incs of
              Inl e \<Rightarrow> js_throw e
            | Inr ps \<Rightarrow>
                render_stylus env
                  (stylus_define ''url'' (resolver None)
                    (stylus_set ''resolve url'' (SBool True)
                      (stylus_set ''filename'' (SString fp)
                        (stylus_set ''paths'' (SPaths ps) (stylus content))))))
        else js_return content))"

text \<open>
  The array \<^verbatim>\<open>postCssPlugins\<close> after the two \<^verbatim>\<open>push\<close> calls. The factories run
  in the order of the source: the url plugin inside the \<^verbatim>\<open>if\<close>, then the two
  arguments of the second \<^verbatim>\<open>push\<close> from left to right. A factory that throws ends
  \<^verbatim>\<open>optimizeCss\<close> there, before postcss is called.
\<close>

definition postCssPlugins :: "env \<Rightarrow> string list \<Rightarrow> CssUrl option \<Rightarrow> (plugin list) js" where
  "postCssPlugins env bl cu =
     js_bind
       (if cu \<noteq> Some CssUrl_none
        then js_bind (postcssUrl env \<lparr>url = cu\<rparr>) (\<lambda>p. js_return [p])
        else js_return [])
       (\<lambda>pushed.
     js_bind (postcssPresetEnv env \<lparr>browsers = bl, autoprefixer = True, stage = 3\<rparr>) (\<lambda>presetEnv.
     js_bind (cssnano env \<lparr>preset = (''default'', \<lparr>svgo = False, calc = False\<rparr>)\<rparr>) (\<lambda>nano.
       js_return (pushed @ [presetEnv, nano]))))"

definition optimizeCss :: "env \<Rightarrow> string \<Rightarrow> string \<Rightarrow> string list \<Rightarrow> CssUrl option \<Rightarrow> Result js" where
  "optimizeCss env fp c bl cu =
     js_bind (postCssPlugins env bl cu) (\<lambda>plugins.
       process env plugins c
         \<lparr>from_path = fp, to_path = String_replace fp (extname fp) ''.css''\<rparr>)"

definition processCss :: "env \<Rightarrow> WorkerOptions \<Rightarrow> WorkerResult js" where
  "processCss env wo =
     js_bind (renderCss env (filePath wo) (basePath wo) (styleIncludePaths wo)) (\<lambda>renderedCss.
     js_bind (optimizeCss env (filePath wo) renderedCss (browserslistData wo) (cssUrl wo)) (\<lambda>result.
       js_return \<lparr>css = result_css result, warnings = map toString (result_warnings result)\<rparr>))"

text \<open>
  The handler of \<^verbatim>\<open>parentPort.on("message", ...)\<close>. The fields \<^verbatim>\<open>signal\<close> and
  \<^verbatim>\<open>port\<close> of the message are the shared array and the reply port of the world.
  The handler has no \<^verbatim>\<open>try\<close>: when \<^verbatim>\<open>processCss\<close> rejects, the handler rejects
  and none of the four statements after the \<^verbatim>\<open>await\<close> runs.
\<close>

definition onMessage :: "env \<Rightarrow> WorkerOptions \<Rightarrow> unit js" where
  "onMessage env wo =
     js_bind (processCss env wo) (\<lambda>result.
     js_bind (port_postMessage result) (\<lambda>_.
     js_bind port_close (\<lambda>_.
     js_bind (Atomics_add 0 1) (\<lambda>_.
       Atomics_notify 0))))"

subsection \<open>Properties of event logs\<close>

fun is_post :: "event \<Rightarrow> bool" where
  "is_post (PostMessage r) = True"
| "is_post ev = False"

fun is_close :: "event \<Rightarrow> bool" where
  "is_close PortClose = True"
| "is_close ev = False"

fun is_add :: "event \<Rightarrow> bool" where
  "is_add (AtomicsAdd i v) = True"
| "is_add ev = False"

fun is_notify :: "event \<Rightarrow> bool" where
  "is_notify (AtomicsNotify i) = True"
| "is_notify ev = False"

fun is_postcssUrl :: "event \<Rightarrow> bool" where
  "is_postcssUrl (PostcssUrl opts) = True"
| "is_postcssUrl ev = False"

definition is_protocol :: "event \<Rightarrow> bool" where
  "is_protocol ev = (is_post ev \<or> is_close ev \<or> is_add ev \<or> is_notify ev)"

text \<open>Some event with \<open>P\<close> stands in the log before some event with \<open>Q\<close>.\<close>

fun occurs_before :: "(event \<Rightarrow> bool) \<Rightarrow> (event \<Rightarrow> bool) \<Rightarrow> event list \<Rightarrow> bool" where
  "occurs_before P Q [] = False"
| "occurs_before P Q (ev # evs) = (if P ev then list_ex Q evs else occurs_before P Q evs)"

text \<open>
  No increment and no notification stands in the log before the first posted message:
  the host never sees the cell change with no result on the port.
\<close>

fun signal_only_after_post :: "event list \<Rightarrow> bool" where
  "signal_only_after_post [] = True"
| "signal_only_after_post (ev # evs) =
     (if is_post ev then True
      else if is_add ev \<or> is_notify ev then False
      else signal_only_after_post evs)"

text \<open>The events of one job: what the handler appends to the log.\<close>

definition job_trace :: "env \<Rightarrow> WorkerOptions \<Rightarrow> world \<Rightarrow> event list" where
  "job_trace env wo w = drop (length (trace w)) (trace (snd (onMessage env wo w)))"

text \<open>
  A computation that only calls collaborators: it appends events that are not calls on
  the port or the shared array, and leaves the rest of the world as it is.
\<close>

definition collaborates :: "'a js \<Rightarrow> bool" where
  "collaborates m =
     (\<forall>w. \<exists>evs. snd (m w) = w\<lparr>trace := trace w @ evs\<rparr> \<and> filter is_protocol evs = [])"

subsection \<open>A sample installation\<close>

text \<open>
  A project directory with four stylesheets; \<^verbatim>\<open>sass\<close> is installed and
  \<^verbatim>\<open>node-sass\<close> is not; compiling \<^verbatim>\<open>broken.scss\<close> fails on its import; the
  preset factory throws for the browser list \<^verbatim>\<open>['bogus-browser 1']\<close>.
\<close>

definition fs_sample :: "string \<Rightarrow> error + string" where
  "fs_sample p =
     (if p = ''/proj/a.css'' then Inr ''a{color:red}''
      else if p = ''/proj/theme.scss'' then Inr ''$c: red; a{color:$c}''
      else if p = ''/proj/broken.scss'' then Inr ''@import missing;''
      else if p = ''/proj/page.styl'' then Inr ''a color red''
      else Inl (Error ''ENOENT: no such file or directory''))"

definition env_sample :: env where
  "env_sample =
     \<lparr>fs_readFile = fs_sample,
      resolve_module = (\<lambda>name. name \<noteq> ''node-sass''),
      sass_renderSync = (\<lambda>m opts.
        if sass_file opts = ''/proj/broken.scss''
        then Inl (Error ''File to import not found or unreadable: missing'')
        else Inr ''a{color:red}''),
      less_render = (\<lambda>m content opts. Inr content),
      stylus_render = (\<lambda>r. Inr ''a{color:red}''),
      postcss_url = (\<lambda>opts. Inr (Plugin ''postcss-url'')),
      postcss_preset_env = (\<lambda>opts.
        if browsers opts = [''bogus-browser 1'']
        then Inl (Error ''Unknown browser query bogus-browser 1'')
        else Inr (Plugin ''postcss-preset-env'')),
      cssnano_preset = (\<lambda>opts. Inr (Plugin ''cssnano'')),
      postcss_process = (\<lambda>plugins c opts. Inr \<lparr>result_css = c, result_warnings = [Warning ''w'']\<rparr>)\<rparr>"

definition job_for :: "string \<Rightarrow> WorkerOptions" where
  "job_for p =
     \<lparr>filePath = p, browserslistData = [''defaults''], cssUrl = Some CssUrl_inline,
      styleIncludePaths = Some [''/proj/styles''], basePath = ''/proj''\<rparr>"

definition w_init :: world where
  "w_init = \<lparr>signal = [0], port_queue = [], port_closed = False, wakeups = 0, trace = []\<rparr>"

section \<open>Running the worker\<close>

subsection \<open>One step at a time\<close>

lemma js_bind_Inr: "m w = (Inr x, w') \<Longrightarrow> js_bind m f w = f x w'"
  by (simp add: js_bind_def)

lemma js_bind_Inl: "m w = (Inl e, w') \<Longrightarrow> js_bind m f w = (Inl e, w')"
  by (simp add: js_bind_def)

lemma call_run: "call ev r w = (r, w\<lparr>trace := trace w @ [ev]\<rparr>)"
  by (cases r) (simp_all add: call_def js_bind_def emit_def js_throw_def js_return_def)

lemma readFile_run:
  "readFile env p w = (fs_readFile env p, w\<lparr>trace := trace w @ [ReadFile p]\<rparr>)"
  by (simp add: readFile_def call_run)

lemma require_run:
  "require env name w = (load_module env name, w\<lparr>trace := trace w @ [Require name]\<rparr>)"
  by (simp add: require_def call_run)

lemma import_module_run:
  "import_module env name w = (load_module env name, w\<lparr>trace := trace w @ [Import name]\<rparr>)"
  by (simp add: import_module_def call_run)

lemma js_bind_run:
  "js_bind m f w = (case m w of (Inl e, w') \<Rightarrow> (Inl e, w') | (Inr x, w') \<Rightarrow> f x w')"
  by (simp add: js_bind_def)

lemma renderSync_run:
  "renderSync env m opts w = (sass_renderSync env m opts, w\<lparr>trace := trace w @ [SassRenderSync m opts]\<rparr>)"
  by (simp add: renderSync_def call_run)

lemma render_stylus_run:
  "render_stylus env r w = (stylus_render env r, w\<lparr>trace := trace w @ [StylusRender r]\<rparr>)"
  by (simp add: render_stylus_def call_run)

lemma postcssUrl_run:
  "postcssUrl env opts w = (postcss_url env opts, w\<lparr>trace := trace w @ [PostcssUrl opts]\<rparr>)"
  by (simp add: postcssUrl_def call_run)

lemma postcssPresetEnv_run:
  "postcssPresetEnv env opts w =
     (postcss_preset_env env opts, w\<lparr>trace := trace w @ [PostcssPresetEnv opts]\<rparr>)"
  by (simp add: postcssPresetEnv_def call_run)

lemma cssnano_run:
  "cssnano env opts w = (cssnano_preset env opts, w\<lparr>trace := trace w @ [Cssnano opts]\<rparr>)"
  by (simp add: cssnano_def call_run)

lemma process_run:
  "process env plugins c opts w =
     (postcss_process env plugins c opts, w\<lparr>trace := trace w @ [PostcssProcess plugins c opts]\<rparr>)"
  by (simp add: process_def call_run)

text \<open>The compiler chosen by the \<^verbatim>\<open>try/catch\<close> around \<^verbatim>\<open>require('node-sass')\<close>.\<close>

lemma sassCompiler_run:
  assumes "resolve_module env ''node-sass'' \<or> resolve_module env ''sass''"
  shows "js_catch (require env ''node-sass'') (\<lambda>_. import_module env ''sass'') w =
     (Inr (Module (if resolve_module env ''node-sass'' then ''node-sass'' else ''sass'')),
      w\<lparr>trace := trace w @ [Require ''node-sass''] @
         (if resolve_module env ''node-sass'' then [] else [Import ''sass''])\<rparr>)"
  using assms by (auto simp add: js_catch_def require_run import_module_run load_module_def)

subsection \<open>Extensions of the sample paths\<close>

lemma extname_a_css: "extname ''/proj/a.css'' = ''.css''"
  by (simp add: extname_def ext_init_def ext_step_def)

lemma extname_theme_scss: "extname ''/proj/theme.scss'' = ''.scss''"
  by (simp add: extname_def ext_init_def ext_step_def)

lemma extname_broken_scss: "extname ''/proj/broken.scss'' = ''.scss''"
  by (simp add: extname_def ext_init_def ext_step_def)

lemma extname_page_styl: "extname ''/proj/page.styl'' = ''.styl''"
  by (simp add: extname_def ext_init_def ext_step_def)

lemma extname_missing_css: "extname ''/proj/missing.css'' = ''.css''"
  by (simp add: extname_def ext_init_def ext_step_def)

section \<open>The dialect renderer\<close>

text \<open>
  C10. \<^verbatim>\<open>renderCss\<close> reads the file before it looks at the extension: when the read
  fails, the render fails with the error of the read, for every path and so for every
  dialect and for the passthrough branch as well, and the read is the only call made.
\<close>

theorem renderCss_read_failure:
  assumes "fs_readFile env fp = Inl e"
  shows "renderCss env fp bp incs w = (Inl e, w\<lparr>trace := trace w @ [ReadFile fp]\<rparr>)"
  using assms by (simp add: renderCss_def Let_def js_bind_Inl readFile_run)

theorem renderCss_read_failure_witness:
  "extname ''/proj/missing.css'' = ''.css'' \<and>
   renderCss env_sample ''/proj/missing.css'' ''/proj'' None w_init =
     (Inl (Error ''ENOENT: no such file or directory''),
      w_init\<lparr>trace := [ReadFile ''/proj/missing.css'']\<rparr>)"
proof -
  have "fs_readFile env_sample ''/proj/missing.css'' =
      Inl (Error ''ENOENT: no such file or directory'')"
    by (simp add: env_sample_def fs_sample_def)
  from renderCss_read_failure [OF this, of "''/proj''" None w_init]
  show ?thesis by (simp add: extname_missing_css w_init_def)
qed

text \<open>
  C7. For a path whose extension is \<^verbatim>\<open>.css\<close> or none of \<^verbatim>\<open>.sass\<close>,
  \<^verbatim>\<open>.scss\<close>, \<^verbatim>\<open>.less\<close>, \<^verbatim>\<open>.styl\<close>, \<^verbatim>\<open>.stylus\<close>, the render is not
  an error and returns the content of the file as it was read; no preprocessor is
  called.
\<close>

theorem renderCss_passthrough:
  assumes "extname fp \<notin> {''.sass'', ''.scss'', ''.less'', ''.styl'', ''.stylus''}"
    and "fs_readFile env fp = Inr content"
  shows "renderCss env fp bp incs w = (Inr content, w\<lparr>trace := trace w @ [ReadFile fp]\<rparr>)"
proof -
  have "readFile env fp w = (Inr content, w\<lparr>trace := trace w @ [ReadFile fp]\<rparr>)"
    using assms(2) by (simp add: readFile_run)
  then show ?thesis
    using assms(1) by (simp add: renderCss_def Let_def js_bind_Inr js_return_def)
qed

theorem renderCss_passthrough_witness:
  "extname ''/proj/a.css'' = ''.css'' \<and>
   renderCss env_sample ''/proj/a.css'' ''/proj'' None w_init =
     (Inr ''a{color:red}'', w_init\<lparr>trace := [ReadFile ''/proj/a.css'']\<rparr>)"
proof -
  have ext: "extname ''/proj/a.css'' \<notin> {''.sass'', ''.scss'', ''.less'', ''.styl'', ''.stylus''}"
    by (simp add: extname_a_css)
  have rd: "fs_readFile env_sample ''/proj/a.css'' = Inr ''a{color:red}''"
    by (simp add: env_sample_def fs_sample_def)
  from renderCss_passthrough [OF ext rd, of "''/proj''" None w_init]
  show ?thesis by (simp add: extname_a_css w_init_def)
qed

text \<open>
  C5. For a path whose extension is \<^verbatim>\<open>.sass\<close> or \<^verbatim>\<open>.scss\<close>, a readable file
  and installed packages, \<^verbatim>\<open>renderCss\<close> first requires \<^verbatim>\<open>node-sass\<close> and
  imports \<^verbatim>\<open>sass\<close> only when that fails, then calls \<^verbatim>\<open>renderSync\<close> of the
  compiler it got with the file, its content, the indented syntax exactly for
  \<^verbatim>\<open>.sass\<close>, the tilde importer and the include paths as they were given; the
  outcome of the render is the outcome of that call.
\<close>

theorem renderCss_sass:
  assumes ext: "extname fp = ''.sass'' \<or> extname fp = ''.scss''"
    and rd: "fs_readFile env fp = Inr content"
    and tilde: "resolve_module env ''node-sass-tilde-importer''"
    and impl: "resolve_module env ''node-sass'' \<or> resolve_module env ''sass''"
  shows "renderCss env fp bp incs w =
     (let pinned = resolve_module env ''node-sass'';
          sassCompiler = Module (if pinned then ''node-sass'' else ''sass'');
          opts = \<lparr>sass_file = fp, data = content, indentedSyntax = (extname fp = ''.sass''),
                  importer = Module ''node-sass-tilde-importer'', includePaths = incs\<rparr>
      in (sass_renderSync env sassCompiler opts,
          w\<lparr>trace := trace w @ [ReadFile fp, Require ''node-sass''] @
             (if pinned then [] else [Import ''sass'']) @
             [Import ''node-sass-tilde-importer'', SassRenderSync sassCompiler opts]\<rparr>))"
proof -
  let ?w1 = "w\<lparr>trace := trace w @ [ReadFile fp]\<rparr>"
  have r1: "readFile env fp w = (Inr content, ?w1)"
    using rd by (simp add: readFile_run)
  have r3: "import_module env ''node-sass-tilde-importer'' w2 =
      (Inr (Module ''node-sass-tilde-importer''),
       w2\<lparr>trace := trace w2 @ [Import ''node-sass-tilde-importer'']\<rparr>)" for w2
    using tilde by (simp add: import_module_run load_module_def)
  have eq: "(''.sass'' = extname fp) = (extname fp = ''.sass'')"
    by auto
  show ?thesis
    using ext
    by (simp add: renderCss_def Let_def js_bind_run r1 sassCompiler_run [OF impl] r3 renderSync_run eq)
qed

theorem renderCss_sass_witness:
  "extname ''/proj/theme.scss'' = ''.scss'' \<and>
   renderCss env_sample ''/proj/theme.scss'' ''/proj'' (Some [''/proj/styles'']) w_init =
     (Inr ''a{color:red}'',
      w_init\<lparr>trace :=
        [ReadFile ''/proj/theme.scss'', Require ''node-sass'', Import ''sass'',
         Import ''node-sass-tilde-importer'',
         SassRenderSync (Module ''sass'')
           \<lparr>sass_file = ''/proj/theme.scss'', data = ''$c: red; a{color:$c}'',
            indentedSyntax = False, importer = Module ''node-sass-tilde-importer'',
            includePaths = Some [''/proj/styles'']\<rparr>]\<rparr>)"
proof -
  have ext: "extname ''/proj/theme.scss'' = ''.sass'' \<or> extname ''/proj/theme.scss'' = ''.scss''"
    by (simp add: extname_theme_scss)
  have rd: "fs_readFile env_sample ''/proj/theme.scss'' = Inr ''$c: red; a{color:$c}''"
    by (simp add: env_sample_def fs_sample_def)
  have tilde: "resolve_module env_sample ''node-sass-tilde-importer''"
    by (simp add: env_sample_def)
  have impl: "resolve_module env_sample ''node-sass'' \<or> resolve_module env_sample ''sass''"
    by (simp add: env_sample_def)
  have pinned: "\<not> resolve_module env_sample ''node-sass''"
    by (simp add: env_sample_def)
  have out: "sass_renderSync env_sample m
      \<lparr>sass_file = ''/proj/theme.scss'', data = d, indentedSyntax = b, importer = i, includePaths = ps\<rparr>
      = Inr ''a{color:red}''" for m d b i ps
    by (simp add: env_sample_def)
  from renderCss_sass [OF ext rd tilde impl, of "''/proj''" "Some [''/proj/styles'']" w_init]
  show ?thesis
    by (simp add: Let_def pinned out extname_theme_scss w_init_def)
qed

text \<open>
  C6. For a path whose extension is \<^verbatim>\<open>.styl\<close> or \<^verbatim>\<open>.stylus\<close>, a readable
  file, an installed \<^verbatim>\<open>stylus\<close> and include paths \<open>ps\<close>, \<^verbatim>\<open>renderCss\<close> renders a
  Stylus renderer over the content whose option \<^verbatim>\<open>paths\<close> is the base path, the
  current directory, \<open>ps\<close> and \<^verbatim>\<open>node_modules\<close> in this order, whose option
  \<^verbatim>\<open>resolve url\<close> is true and whose function \<^verbatim>\<open>url\<close> is the resolver made with
  no options.
\<close>

theorem renderCss_stylus:
  assumes ext: "extname fp = ''.styl'' \<or> extname fp = ''.stylus''"
    and rd: "fs_readFile env fp = Inr content"
    and installed: "resolve_module env ''stylus''"
  shows "renderCss env fp bp (Some ps) w =
     (let r = \<lparr>str = content,
                options = [''paths'' \<mapsto> SPaths ([bp, ''.''] @ ps @ [''node_modules'']),
                           ''filename'' \<mapsto> SString fp,
                           ''resolve url'' \<mapsto> SBool True],
                globals = [''url'' \<mapsto> resolver None]\<rparr>
      in (stylus_render env r,
          w\<lparr>trace := trace w @ [ReadFile fp, Import ''stylus'', StylusRender r]\<rparr>))"
proof -
  let ?w1 = "w\<lparr>trace := trace w @ [ReadFile fp]\<rparr>"
  have r1: "readFile env fp w = (Inr content, ?w1)"
    using rd by (simp add: readFile_run)
  have r2: "import_module env ''stylus'' w2 =
      (Inr (Module ''stylus''), w2\<lparr>trace := trace w2 @ [Import ''stylus'']\<rparr>)" for w2
    using installed by (simp add: import_module_run load_module_def)
  have ne: "extname fp \<noteq> ''.sass''" "extname fp \<noteq> ''.scss''" "extname fp \<noteq> ''.less''"
    using ext by auto
  show ?thesis
    using ext ne
    by (simp add: renderCss_def Let_def js_bind_run r1 r2 stylus_paths_def
        render_stylus_run stylus_def stylus_set_def stylus_define_def)
qed

theorem renderCss_stylus_witness:
  "extname ''/proj/page.styl'' = ''.styl'' \<and>
   renderCss env_sample ''/proj/page.styl'' ''/proj'' (Some [''/proj/styles'']) w_init =
     (Inr ''a{color:red}'',
      w_init\<lparr>trace :=
        [ReadFile ''/proj/page.styl'', Import ''stylus'',
         StylusRender
           \<lparr>str = ''a color red'',
            options = [''paths'' \<mapsto> SPaths [''/proj'', ''.'', ''/proj/styles'', ''node_modules''],
                       ''filename'' \<mapsto> SString ''/proj/page.styl'',
                       ''resolve url'' \<mapsto> SBool True],
            globals = [''url'' \<mapsto> resolver None]\<rparr>]\<rparr>)"
proof -
  have ext: "extname ''/proj/page.styl'' = ''.styl'' \<or> extname ''/proj/page.styl'' = ''.stylus''"
    by (simp add: extname_page_styl)
  have rd: "fs_readFile env_sample ''/proj/page.styl'' = Inr ''a color red''"
    by (simp add: env_sample_def fs_sample_def)
  have installed: "resolve_module env_sample ''stylus''"
    by (simp add: env_sample_def)
  have out: "stylus_render env_sample r = Inr ''a{color:red}''" for r
    by (simp add: env_sample_def)
  from renderCss_stylus [OF ext rd installed, of "''/proj''" "[''/proj/styles'']" w_init]
  show ?thesis
    by (simp add: Let_def out extname_page_styl w_init_def)
qed

text \<open>
  With \<^verbatim>\<open>styleIncludePaths\<close> undefined there is no list to spread, and the Stylus
  branch rejects before the engine is called.
\<close>

lemma renderCss_stylus_no_includePaths:
  assumes ext: "extname fp = ''.styl'' \<or> extname fp = ''.stylus''"
    and rd: "fs_readFile env fp = Inr content"
    and installed: "resolve_module env ''stylus''"
  shows "fst (renderCss env fp bp None w) = Inl (TypeError ''styleIncludePaths is not iterable'')"
proof -
  let ?w1 = "w\<lparr>trace := trace w @ [ReadFile fp]\<rparr>"
  have r1: "readFile env fp w = (Inr content, ?w1)"
    using rd by (simp add: readFile_run)
  have r2: "import_module env ''stylus'' w2 =
      (Inr (Module ''stylus''), w2\<lparr>trace := trace w2 @ [Import ''stylus'']\<rparr>)" for w2
    using installed by (simp add: import_module_run load_module_def)
  have ne: "extname fp \<noteq> ''.sass''" "extname fp \<noteq> ''.scss''" "extname fp \<noteq> ''.less''"
    using ext by auto
  show ?thesis
    using ext ne
    by (simp add: renderCss_def Let_def js_bind_run r1 r2 stylus_paths_def js_throw_def)
qed

section \<open>The optimization pipeline\<close>

text \<open>
  When the extension is not empty and its string occurs nowhere before the end of the
  path, the replacement does put \<^verbatim>\<open>.css\<close> in place of the extension; with an
  empty extension it puts \<^verbatim>\<open>.css\<close> in front of the path.
\<close>

lemma String_replace_at_end:
  assumes "ext \<noteq> []"
    and "\<And>i. i < length stem \<Longrightarrow> \<not> prefix ext (drop i (stem @ ext))"
  shows "String_replace (stem @ ext) ext rep = stem @ rep"
  using assms
proof (induction stem)
  case Nil
  then show ?case by (cases ext) simp_all
next
  case (Cons a stem)
  from Cons.prems(2) [of 0] have here: "\<not> prefix ext (a # stem @ ext)"
    by simp
  have later: "\<not> prefix ext (drop i (stem @ ext))" if "i < length stem" for i
    using Cons.prems(2) [of "Suc i"] that by simp
  from Cons.IH [OF Cons.prems(1) later] here show ?case
    by simp
qed

lemma String_replace_no_extension: "String_replace fp [] rep = rep @ fp"
  by (cases fp) simp_all

lemma extname_app_less: "extname ''/home/u/my.lessons/app.less'' = ''.less''"
  by (simp add: extname_def ext_init_def ext_step_def)

text \<open>The plugin array when every factory that is called returns a plugin.\<close>

lemma postCssPlugins_run:
  assumes "cu \<noteq> Some CssUrl_none \<Longrightarrow> postcss_url env \<lparr>url = cu\<rparr> = Inr u"
    and "postcss_preset_env env \<lparr>browsers = bl, autoprefixer = True, stage = 3\<rparr> = Inr p"
    and "cssnano_preset env \<lparr>preset = (''default'', \<lparr>svgo = False, calc = False\<rparr>)\<rparr> = Inr n"
  shows "postCssPlugins env bl cu w =
     (Inr ((if cu = Some CssUrl_none then [] else [u]) @ [p, n]),
      w\<lparr>trace := trace w @
         (if cu = Some CssUrl_none then [] else [PostcssUrl \<lparr>url = cu\<rparr>]) @
         [PostcssPresetEnv \<lparr>browsers = bl, autoprefixer = True, stage = 3\<rparr>,
          Cssnano \<lparr>preset = (''default'', \<lparr>svgo = False, calc = False\<rparr>)\<rparr>]\<rparr>)"
proof (cases "cu = Some CssUrl_none")
  case True
  then show ?thesis
    using assms(2,3)
    by (simp add: postCssPlugins_def js_bind_run js_return_def postcssPresetEnv_run cssnano_run)
next
  case False
  with assms(1) have "postcss_url env \<lparr>url = cu\<rparr> = Inr u" by simp
  with False show ?thesis
    using assms(2,3)
    by (simp add: postCssPlugins_def js_bind_run js_return_def postcssUrl_run
        postcssPresetEnv_run cssnano_run)
qed

text \<open>
  The url factory is called exactly when the mode is not \<^verbatim>\<open>CssUrl.none\<close>, whatever
  the factories return or throw.
\<close>

lemma postCssPlugins_url_calls:
  "filter is_postcssUrl (drop (length (trace w)) (trace (snd (postCssPlugins env bl cu w)))) =
     (if cu = Some CssUrl_none then [] else [PostcssUrl \<lparr>url = cu\<rparr>])"
  by (simp add: postCssPlugins_def js_bind_run js_return_def postcssUrl_run
      postcssPresetEnv_run cssnano_run split: sum.split)

text \<open>
  A factory that throws ends \<^verbatim>\<open>optimizeCss\<close> with its error and postcss is not
  called: here the preset factory.
\<close>

lemma optimizeCss_preset_failure:
  assumes "cu \<noteq> Some CssUrl_none \<Longrightarrow> postcss_url env \<lparr>url = cu\<rparr> = Inr u"
    and "postcss_preset_env env \<lparr>browsers = bl, autoprefixer = True, stage = 3\<rparr> = Inl e"
  shows "optimizeCss env fp c bl cu w =
     (Inl e,
      w\<lparr>trace := trace w @
         (if cu = Some CssUrl_none then [] else [PostcssUrl \<lparr>url = cu\<rparr>]) @
         [PostcssPresetEnv \<lparr>browsers = bl, autoprefixer = True, stage = 3\<rparr>]\<rparr>)"
proof (cases "cu = Some CssUrl_none")
  case True
  then show ?thesis
    using assms(2)
    by (simp add: optimizeCss_def postCssPlugins_def js_bind_run js_return_def postcssPresetEnv_run)
next
  case False
  with assms(1) have "postcss_url env \<lparr>url = cu\<rparr> = Inr u" by simp
  with False show ?thesis
    using assms(2)
    by (simp add: optimizeCss_def postCssPlugins_def js_bind_run js_return_def postcssUrl_run
        postcssPresetEnv_run)
qed

lemma optimizeCss_bogus_browser:
  "optimizeCss env_sample ''/proj/a.css'' ''a{color:red}'' [''bogus-browser 1''] None w_init =
     (Inl (Error ''Unknown browser query bogus-browser 1''),
      w_init\<lparr>trace :=
        [PostcssUrl \<lparr>url = None\<rparr>,
         PostcssPresetEnv \<lparr>browsers = [''bogus-browser 1''], autoprefixer = True, stage = 3\<rparr>]\<rparr>)"
proof -
  have u: "postcss_url env_sample \<lparr>url = None\<rparr> = Inr (Plugin ''postcss-url'')"
    by (simp add: env_sample_def)
  have p: "postcss_preset_env env_sample
      \<lparr>browsers = [''bogus-browser 1''], autoprefixer = True, stage = 3\<rparr>
      = Inl (Error ''Unknown browser query bogus-browser 1'')"
    by (simp add: env_sample_def)
  from optimizeCss_preset_failure [where cu = None and w = w_init, OF u p]
  show ?thesis by (simp add: w_init_def)
qed

text \<open>
  C4. Whatever the url mode and the input, when the plugin factories return their
  plugins \<^verbatim>\<open>optimizeCss\<close> calls them and then the postcss runner once, in this
  order: the url factory with the mode, called exactly when the mode is not
  \<^verbatim>\<open>CssUrl.none\<close>; the preset factory with the browsers, the autoprefixer on and
  stage 3; cssnano with the preset \<^verbatim>\<open>default\<close> and with \<^verbatim>\<open>svgo\<close> and
  \<^verbatim>\<open>calc\<close> both off. The chain handed to the runner is the plugins returned, in
  this order.
\<close>

theorem optimizeCss_plugin_chain:
  assumes "cu \<noteq> Some CssUrl_none \<Longrightarrow> postcss_url env \<lparr>url = cu\<rparr> = Inr u"
    and "postcss_preset_env env \<lparr>browsers = bl, autoprefixer = True, stage = 3\<rparr> = Inr p"
    and "cssnano_preset env \<lparr>preset = (''default'', \<lparr>svgo = False, calc = False\<rparr>)\<rparr> = Inr n"
  shows "optimizeCss env fp c bl cu w =
     (let chain = (if cu = Some CssUrl_none then [] else [u]) @ [p, n];
          opts = \<lparr>from_path = fp, to_path = String_replace fp (extname fp) ''.css''\<rparr>
      in (postcss_process env chain c opts,
          w\<lparr>trace := trace w @
             (if cu = Some CssUrl_none then [] else [PostcssUrl \<lparr>url = cu\<rparr>]) @
             [PostcssPresetEnv \<lparr>browsers = bl, autoprefixer = True, stage = 3\<rparr>,
              Cssnano \<lparr>preset = (''default'', \<lparr>svgo = False, calc = False\<rparr>)\<rparr>,
              PostcssProcess chain c opts]\<rparr>))"
  by (simp add: optimizeCss_def js_bind_run postCssPlugins_run [OF assms] process_run Let_def)

theorem optimizeCss_plugin_chain_witness:
  "optimizeCss env_sample ''/proj/a.css'' ''a{color:red}'' [''defaults''] (Some CssUrl_inline) w_init =
     (Inr \<lparr>result_css = ''a{color:red}'', result_warnings = [Warning ''w'']\<rparr>,
      w_init\<lparr>trace :=
        [PostcssUrl \<lparr>url = Some CssUrl_inline\<rparr>,
         PostcssPresetEnv \<lparr>browsers = [''defaults''], autoprefixer = True, stage = 3\<rparr>,
         Cssnano \<lparr>preset = (''default'', \<lparr>svgo = False, calc = False\<rparr>)\<rparr>,
         PostcssProcess [Plugin ''postcss-url'', Plugin ''postcss-preset-env'', Plugin ''cssnano'']
           ''a{color:red}'' \<lparr>from_path = ''/proj/a.css'', to_path = ''/proj/a.css''\<rparr>]\<rparr>) \<and>
   optimizeCss env_sample ''/proj/a.css'' ''a{color:red}'' [''defaults''] (Some CssUrl_none) w_init =
     (Inr \<lparr>result_css = ''a{color:red}'', result_warnings = [Warning ''w'']\<rparr>,
      w_init\<lparr>trace :=
        [PostcssPresetEnv \<lparr>browsers = [''defaults''], autoprefixer = True, stage = 3\<rparr>,
         Cssnano \<lparr>preset = (''default'', \<lparr>svgo = False, calc = False\<rparr>)\<rparr>,
         PostcssProcess [Plugin ''postcss-preset-env'', Plugin ''cssnano'']
           ''a{color:red}'' \<lparr>from_path = ''/proj/a.css'', to_path = ''/proj/a.css''\<rparr>]\<rparr>)"
proof -
  have u: "postcss_url env_sample \<lparr>url = cu\<rparr> = Inr (Plugin ''postcss-url'')" for cu
    by (simp add: env_sample_def)
  have p: "postcss_preset_env env_sample \<lparr>browsers = [''defaults''], autoprefixer = True, stage = 3\<rparr>
      = Inr (Plugin ''postcss-preset-env'')"
    by (simp add: env_sample_def)
  have n: "cssnano_preset env_sample \<lparr>preset = (''default'', \<lparr>svgo = False, calc = False\<rparr>)\<rparr>
      = Inr (Plugin ''cssnano'')"
    by (simp add: env_sample_def)
  have out: "postcss_process env_sample chain c opts =
      Inr \<lparr>result_css = c, result_warnings = [Warning ''w'']\<rparr>" for chain c opts
    by (simp add: env_sample_def)
  from optimizeCss_plugin_chain
      [where cu = "Some CssUrl_inline" and fp = "''/proj/a.css''" and c = "''a{color:red}''"
        and w = w_init, OF u p n]
    optimizeCss_plugin_chain
      [where cu = "Some CssUrl_none" and fp = "''/proj/a.css''" and c = "''a{color:red}''"
        and w = w_init, OF u p n]
  show ?thesis
    by (simp add: Let_def out extname_a_css w_init_def)
qed

text \<open>
  C9. In a job whose message has no \<^verbatim>\<open>cssUrl\<close> and whose render succeeds,
  \<^verbatim>\<open>processCss\<close> calls the url factory with the undefined mode and hands postcss a
  chain that starts with the plugin it returned. For every value of \<^verbatim>\<open>cssUrl\<close>,
  the url factory is called, once and first, unless the value is \<^verbatim>\<open>CssUrl.none\<close>,
  for which it is not called and the chain holds the other two plugins only.
\<close>

theorem processCss_url_plugin_unless_none:
  assumes render: "renderCss env (filePath wo) (basePath wo) (styleIncludePaths wo) w = (Inr c, w1)"
    and url: "cssUrl wo \<noteq> Some CssUrl_none \<Longrightarrow> postcss_url env \<lparr>url = cssUrl wo\<rparr> = Inr u"
    and presetEnv: "postcss_preset_env env
        \<lparr>browsers = browserslistData wo, autoprefixer = True, stage = 3\<rparr> = Inr p"
    and nano: "cssnano_preset env \<lparr>preset = (''default'', \<lparr>svgo = False, calc = False\<rparr>)\<rparr> = Inr n"
  shows "(cssUrl wo = None \<longrightarrow>
      snd (processCss env wo w) =
        w1\<lparr>trace := trace w1 @
          [PostcssUrl \<lparr>url = None\<rparr>,
           PostcssPresetEnv \<lparr>browsers = browserslistData wo, autoprefixer = True, stage = 3\<rparr>,
           Cssnano \<lparr>preset = (''default'', \<lparr>svgo = False, calc = False\<rparr>)\<rparr>,
           PostcssProcess [u, p, n] c
             \<lparr>from_path = filePath wo,
              to_path = String_replace (filePath wo) (extname (filePath wo)) ''.css''\<rparr>]\<rparr>) \<and>
     snd (processCss env wo w) =
       w1\<lparr>trace := trace w1 @
         (if cssUrl wo = Some CssUrl_none then [] else [PostcssUrl \<lparr>url = cssUrl wo\<rparr>]) @
         [PostcssPresetEnv \<lparr>browsers = browserslistData wo, autoprefixer = True, stage = 3\<rparr>,
          Cssnano \<lparr>preset = (''default'', \<lparr>svgo = False, calc = False\<rparr>)\<rparr>,
          PostcssProcess ((if cssUrl wo = Some CssUrl_none then [] else [u]) @ [p, n]) c
            \<lparr>from_path = filePath wo,
             to_path = String_replace (filePath wo) (extname (filePath wo)) ''.css''\<rparr>]\<rparr> \<and>
     filter is_postcssUrl (drop (length (trace w1)) (trace (snd (processCss env wo w)))) =
       (if cssUrl wo = Some CssUrl_none then [] else [PostcssUrl \<lparr>url = cssUrl wo\<rparr>])"
proof -
  let ?opts = "\<lparr>from_path = filePath wo,
      to_path = String_replace (filePath wo) (extname (filePath wo)) ''.css''\<rparr>"
  let ?chain = "(if cssUrl wo = Some CssUrl_none then [] else [u]) @ [p, n]"
  let ?evs = "(if cssUrl wo = Some CssUrl_none then [] else [PostcssUrl \<lparr>url = cssUrl wo\<rparr>]) @
     [PostcssPresetEnv \<lparr>browsers = browserslistData wo, autoprefixer = True, stage = 3\<rparr>,
      Cssnano \<lparr>preset = (''default'', \<lparr>svgo = False, calc = False\<rparr>)\<rparr>,
      PostcssProcess ?chain c ?opts]"
  have plugins: "postCssPlugins env (browserslistData wo) (cssUrl wo) w1 =
     (Inr ?chain,
      w1\<lparr>trace := trace w1 @
         (if cssUrl wo = Some CssUrl_none then [] else [PostcssUrl \<lparr>url = cssUrl wo\<rparr>]) @
         [PostcssPresetEnv \<lparr>browsers = browserslistData wo, autoprefixer = True, stage = 3\<rparr>,
          Cssnano \<lparr>preset = (''default'', \<lparr>svgo = False, calc = False\<rparr>)\<rparr>]\<rparr>)"
    by (rule postCssPlugins_run [OF url presetEnv nano])
  have opt: "optimizeCss env (filePath wo) c (browserslistData wo) (cssUrl wo) w1 =
      (postcss_process env ?chain c ?opts, w1\<lparr>trace := trace w1 @ ?evs\<rparr>)"
    by (simp add: optimizeCss_def js_bind_run plugins process_run)
  have run: "snd (processCss env wo w) = w1\<lparr>trace := trace w1 @ ?evs\<rparr>"
    by (simp add: processCss_def js_bind_run render opt js_return_def split: sum.split)
  have calls: "filter is_postcssUrl (drop (length (trace w1)) (trace (snd (processCss env wo w)))) =
      (if cssUrl wo = Some CssUrl_none then [] else [PostcssUrl \<lparr>url = cssUrl wo\<rparr>])"
    by (simp add: run)
  from run calls show ?thesis by simp
qed

theorem processCss_url_plugin_unless_none_witness:
  "cssUrl ((job_for ''/proj/a.css'')\<lparr>cssUrl := None\<rparr>) = None \<and>
   snd (processCss env_sample ((job_for ''/proj/a.css'')\<lparr>cssUrl := None\<rparr>) w_init) =
     w_init\<lparr>trace :=
       [ReadFile ''/proj/a.css'',
        PostcssUrl \<lparr>url = None\<rparr>,
        PostcssPresetEnv \<lparr>browsers = [''defaults''], autoprefixer = True, stage = 3\<rparr>,
        Cssnano \<lparr>preset = (''default'', \<lparr>svgo = False, calc = False\<rparr>)\<rparr>,
        PostcssProcess [Plugin ''postcss-url'', Plugin ''postcss-preset-env'', Plugin ''cssnano'']
          ''a{color:red}'' \<lparr>from_path = ''/proj/a.css'', to_path = ''/proj/a.css''\<rparr>]\<rparr> \<and>
   snd (processCss env_sample ((job_for ''/proj/a.css'')\<lparr>cssUrl := Some CssUrl_none\<rparr>) w_init) =
     w_init\<lparr>trace :=
       [ReadFile ''/proj/a.css'',
        PostcssPresetEnv \<lparr>browsers = [''defaults''], autoprefixer = True, stage = 3\<rparr>,
        Cssnano \<lparr>preset = (''default'', \<lparr>svgo = False, calc = False\<rparr>)\<rparr>,
        PostcssProcess [Plugin ''postcss-preset-env'', Plugin ''cssnano'']
          ''a{color:red}'' \<lparr>from_path = ''/proj/a.css'', to_path = ''/proj/a.css''\<rparr>]\<rparr>"
proof -
  let ?undef = "(job_for ''/proj/a.css'')\<lparr>cssUrl := None\<rparr>"
  let ?none = "(job_for ''/proj/a.css'')\<lparr>cssUrl := Some CssUrl_none\<rparr>"
  let ?w1 = "w_init\<lparr>trace := trace w_init @ [ReadFile ''/proj/a.css'']\<rparr>"
  have ext: "extname ''/proj/a.css'' \<notin> {''.sass'', ''.scss'', ''.less'', ''.styl'', ''.stylus''}"
    by (simp add: extname_a_css)
  have rd: "fs_readFile env_sample ''/proj/a.css'' = Inr ''a{color:red}''"
    by (simp add: env_sample_def fs_sample_def)
  have render: "renderCss env_sample ''/proj/a.css'' bp incs w_init = (Inr ''a{color:red}'', ?w1)"
    for bp incs
    using ext rd by (simp add: renderCss_def Let_def js_bind_run readFile_run js_return_def)
  have r1: "renderCss env_sample (filePath ?undef) (basePath ?undef) (styleIncludePaths ?undef) w_init
      = (Inr ''a{color:red}'', ?w1)"
    by (simp add: job_for_def render)
  have r2: "renderCss env_sample (filePath ?none) (basePath ?none) (styleIncludePaths ?none) w_init
      = (Inr ''a{color:red}'', ?w1)"
    by (simp add: job_for_def render)
  have u: "postcss_url env_sample \<lparr>url = cu\<rparr> = Inr (Plugin ''postcss-url'')" for cu
    by (simp add: env_sample_def)
  have p: "postcss_preset_env env_sample
      \<lparr>browsers = browserslistData (job_for fp\<lparr>cssUrl := cu\<rparr>), autoprefixer = True, stage = 3\<rparr>
      = Inr (Plugin ''postcss-preset-env'')" for fp cu
    by (simp add: env_sample_def job_for_def)
  have n: "cssnano_preset env_sample \<lparr>preset = (''default'', \<lparr>svgo = False, calc = False\<rparr>)\<rparr>
      = Inr (Plugin ''cssnano'')"
    by (simp add: env_sample_def)
  from processCss_url_plugin_unless_none [OF r1 u p n]
    processCss_url_plugin_unless_none [OF r2 u p n]
  show ?thesis
    by (simp add: job_for_def extname_a_css w_init_def)
qed

text \<open>
  C8. The runner is told the original path as \<^verbatim>\<open>from\<close>. Its \<^verbatim>\<open>to\<close> is the path
  with the first occurrence of the extension string replaced by \<^verbatim>\<open>.css\<close>, which is
  not always the extension: for \<^verbatim>\<open>/home/u/my.lessons/app.less\<close> the extension is
  \<^verbatim>\<open>.less\<close>, the replaced occurrence lies in the directory name, and the file keeps
  its extension.
\<close>

theorem optimizeCss_to_path_first_occurrence:
  "extname ''/home/u/my.lessons/app.less'' = ''.less'' \<and>
   optimizeCss env ''/home/u/my.lessons/app.less'' c bl cu w =
     js_bind (postCssPlugins env bl cu) (\<lambda>plugins.
       process env plugins c
         \<lparr>from_path = ''/home/u/my.lessons/app.less'',
          to_path = ''/home/u/my.cssons/app.less''\<rparr>) w \<and>
   String_replace ''/home/u/my.lessons/app.less'' (extname ''/home/u/my.lessons/app.less'') ''.css''
     \<noteq> ''/home/u/my.lessons/app.css''"
  by (simp add: optimizeCss_def extname_app_less)

section \<open>The message handler\<close>

subsection \<open>Collaborator calls leave the port and the shared array alone\<close>

lemma collaborates_return: "collaborates (js_return x)"
  unfolding collaborates_def js_return_def
  by (intro allI exI [of _ "[]"]) simp

lemma collaborates_throw: "collaborates (js_throw e)"
  unfolding collaborates_def js_throw_def
  by (intro allI exI [of _ "[]"]) simp

lemma collaborates_call: "\<not> is_protocol ev \<Longrightarrow> collaborates (call ev r)"
  unfolding collaborates_def
  by (intro allI exI [of _ "[ev]"]) (simp add: call_run)

lemma collaborates_bind:
  assumes m: "collaborates m" and f: "\<And>x. collaborates (f x)"
  shows "collaborates (js_bind m f)"
  unfolding collaborates_def
proof
  fix w
  from m obtain evs where evs:
    "snd (m w) = w\<lparr>trace := trace w @ evs\<rparr>" "filter is_protocol evs = []"
    unfolding collaborates_def by blast
  show "\<exists>evs. snd (js_bind m f w) = w\<lparr>trace := trace w @ evs\<rparr> \<and> filter is_protocol evs = []"
  proof (cases "fst (m w)")
    case (Inl e)
    then have "m w = (Inl e, w\<lparr>trace := trace w @ evs\<rparr>)"
      using evs(1) by (metis prod.collapse)
    then have "snd (js_bind m f w) = w\<lparr>trace := trace w @ evs\<rparr>"
      by (simp add: js_bind_Inl)
    with evs(2) show ?thesis by blast
  next
    case (Inr x)
    let ?w1 = "w\<lparr>trace := trace w @ evs\<rparr>"
    from Inr have mw: "m w = (Inr x, ?w1)"
      using evs(1) by (metis prod.collapse)
    from f [of x] obtain evs' where evs':
      "snd (f x ?w1) = ?w1\<lparr>trace := trace ?w1 @ evs'\<rparr>" "filter is_protocol evs' = []"
      unfolding collaborates_def by blast
    have "snd (js_bind m f w) = w\<lparr>trace := trace w @ (evs @ evs')\<rparr>"
      using mw evs'(1) by (simp add: js_bind_Inr)
    moreover have "filter is_protocol (evs @ evs') = []"
      using evs(2) evs'(2) by simp
    ultimately show ?thesis by blast
  qed
qed

lemma collaborates_catch:
  assumes m: "collaborates m" and h: "\<And>e. collaborates (h e)"
  shows "collaborates (js_catch m h)"
  unfolding collaborates_def
proof
  fix w
  from m obtain evs where evs:
    "snd (m w) = w\<lparr>trace := trace w @ evs\<rparr>" "filter is_protocol evs = []"
    unfolding collaborates_def by blast
  show "\<exists>evs. snd (js_catch m h w) = w\<lparr>trace := trace w @ evs\<rparr> \<and> filter is_protocol evs = []"
  proof (cases "fst (m w)")
    case (Inr x)
    then have "m w = (Inr x, w\<lparr>trace := trace w @ evs\<rparr>)"
      using evs(1) by (metis prod.collapse)
    then have "snd (js_catch m h w) = w\<lparr>trace := trace w @ evs\<rparr>"
      by (simp add: js_catch_def)
    with evs(2) show ?thesis by blast
  next
    case (Inl e)
    let ?w1 = "w\<lparr>trace := trace w @ evs\<rparr>"
    from Inl have mw: "m w = (Inl e, ?w1)"
      using evs(1) by (metis prod.collapse)
    from h [of e] obtain evs' where evs':
      "snd (h e ?w1) = ?w1\<lparr>trace := trace ?w1 @ evs'\<rparr>" "filter is_protocol evs' = []"
      unfolding collaborates_def by blast
    have "snd (js_catch m h w) = w\<lparr>trace := trace w @ (evs @ evs')\<rparr>"
      using mw evs'(1) by (simp add: js_catch_def)
    moreover have "filter is_protocol (evs @ evs') = []"
      using evs(2) evs'(2) by simp
    ultimately show ?thesis by blast
  qed
qed

lemmas collaborates_intros =
  collaborates_return collaborates_throw collaborates_call collaborates_bind collaborates_catch

lemma collaborates_renderCss: "collaborates (renderCss env fp bp incs)"
  unfolding renderCss_def Let_def readFile_def require_def import_module_def renderSync_def
    render_less_def render_stylus_def
  by (auto intro!: collaborates_intros split: sum.split simp add: is_protocol_def)

lemma collaborates_optimizeCss: "collaborates (optimizeCss env fp c bl cu)"
  unfolding optimizeCss_def postCssPlugins_def process_def postcssUrl_def postcssPresetEnv_def
    cssnano_def
  by (auto intro!: collaborates_intros simp add: is_protocol_def)

lemma collaborates_processCss: "collaborates (processCss env wo)"
  unfolding processCss_def
  by (intro collaborates_bind collaborates_renderCss collaborates_optimizeCss collaborates_return)

text \<open>What \<^verbatim>\<open>processCss\<close> leaves behind, whether it fulfils or rejects.\<close>

lemma processCss_world:
  obtains evs where "processCss env wo w = (fst (processCss env wo w), w\<lparr>trace := trace w @ evs\<rparr>)"
    and "filter is_protocol evs = []"
proof -
  from collaborates_processCss [of env wo] obtain evs where
    "snd (processCss env wo w) = w\<lparr>trace := trace w @ evs\<rparr>" "filter is_protocol evs = []"
    unfolding collaborates_def by blast
  then show thesis
    using that [of evs] by (metis prod.collapse)
qed

subsection \<open>The three ways a job can end\<close>

lemma onMessage_rejected:
  assumes "processCss env wo w = (Inl e, w1)"
  shows "onMessage env wo w = (Inl e, w1)"
  using assms by (simp add: onMessage_def js_bind_run)

lemma onMessage_fulfilled:
  assumes "processCss env wo w = (Inr r, w1)" and "signal w1 \<noteq> []"
  shows "onMessage env wo w =
     (Inr (),
      w1\<lparr>port_queue := (if port_closed w1 then port_queue w1 else port_queue w1 @ [r]),
         port_closed := True,
         signal := (signal w1)[0 := signal w1 ! 0 + 1],
         wakeups := wakeups w1 + 1,
         trace := trace w1 @ [PostMessage r, PortClose, AtomicsAdd 0 1, AtomicsNotify 0]\<rparr>)"
  using assms
  by (simp add: onMessage_def js_bind_run port_postMessage_def port_close_def Atomics_add_def
      Atomics_notify_def)

lemma onMessage_no_cell:
  assumes "processCss env wo w = (Inr r, w1)" and "signal w1 = []"
  shows "onMessage env wo w =
     (Inl (RangeError ''Invalid atomic access index''),
      w1\<lparr>port_queue := (if port_closed w1 then port_queue w1 else port_queue w1 @ [r]),
         port_closed := True,
         trace := trace w1 @ [PostMessage r, PortClose]\<rparr>)"
  using assms
  by (simp add: onMessage_def js_bind_run port_postMessage_def port_close_def Atomics_add_def)

lemma job_trace_rejected:
  assumes "fst (processCss env wo w) = Inl e"
  obtains evs where "job_trace env wo w = evs" and "filter is_protocol evs = []"
    and "onMessage env wo w = (Inl e, w\<lparr>trace := trace w @ evs\<rparr>)"
proof -
  obtain evs where p: "processCss env wo w = (fst (processCss env wo w), w\<lparr>trace := trace w @ evs\<rparr>)"
    and evs: "filter is_protocol evs = []"
    by (rule processCss_world)
  from p assms have "processCss env wo w = (Inl e, w\<lparr>trace := trace w @ evs\<rparr>)" by simp
  then have run: "onMessage env wo w = (Inl e, w\<lparr>trace := trace w @ evs\<rparr>)"
    by (rule onMessage_rejected)
  then have "job_trace env wo w = evs" by (simp add: job_trace_def)
  with evs run show thesis using that by blast
qed

lemma job_trace_fulfilled:
  assumes "fst (processCss env wo w) = Inr r" and "signal w \<noteq> []"
  obtains evs where
    "job_trace env wo w = evs @ [PostMessage r, PortClose, AtomicsAdd 0 1, AtomicsNotify 0]"
    and "filter is_protocol evs = []"
    and "signal (snd (onMessage env wo w)) = (signal w)[0 := signal w ! 0 + 1]"
    and "wakeups (snd (onMessage env wo w)) = wakeups w + 1"
    and "port_queue (snd (onMessage env wo w)) =
           (if port_closed w then port_queue w else port_queue w @ [r])"
    and "port_closed (snd (onMessage env wo w))"
    and "fst (onMessage env wo w) = Inr ()"
proof -
  obtain evs where p: "processCss env wo w = (fst (processCss env wo w), w\<lparr>trace := trace w @ evs\<rparr>)"
    and evs: "filter is_protocol evs = []"
    by (rule processCss_world)
  let ?w1 = "w\<lparr>trace := trace w @ evs\<rparr>"
  from p assms(1) have "processCss env wo w = (Inr r, ?w1)" by simp
  moreover have "signal ?w1 \<noteq> []" using assms(2) by simp
  ultimately have run: "onMessage env wo w =
     (Inr (),
      ?w1\<lparr>port_queue := (if port_closed ?w1 then port_queue ?w1 else port_queue ?w1 @ [r]),
         port_closed := True,
         signal := (signal ?w1)[0 := signal ?w1 ! 0 + 1],
         wakeups := wakeups ?w1 + 1,
         trace := trace ?w1 @ [PostMessage r, PortClose, AtomicsAdd 0 1, AtomicsNotify 0]\<rparr>)"
    by (rule onMessage_fulfilled)
  have "job_trace env wo w = evs @ [PostMessage r, PortClose, AtomicsAdd 0 1, AtomicsNotify 0]"
    by (simp add: job_trace_def run)
  moreover have "signal (snd (onMessage env wo w)) = (signal w)[0 := signal w ! 0 + 1]"
    and "wakeups (snd (onMessage env wo w)) = wakeups w + 1"
    and "port_queue (snd (onMessage env wo w)) =
           (if port_closed w then port_queue w else port_queue w @ [r])"
    and "port_closed (snd (onMessage env wo w))"
    and "fst (onMessage env wo w) = Inr ()"
    by (simp_all add: run)
  ultimately show thesis using evs that by blast
qed

lemma job_trace_no_cell:
  assumes "fst (processCss env wo w) = Inr r" and "signal w = []"
  obtains evs where "job_trace env wo w = evs @ [PostMessage r, PortClose]"
    and "filter is_protocol evs = []"
proof -
  obtain evs where p: "processCss env wo w = (fst (processCss env wo w), w\<lparr>trace := trace w @ evs\<rparr>)"
    and evs: "filter is_protocol evs = []"
    by (rule processCss_world)
  let ?w1 = "w\<lparr>trace := trace w @ evs\<rparr>"
  from p assms(1) have "processCss env wo w = (Inr r, ?w1)" by simp
  moreover have "signal ?w1 = []" using assms(2) by simp
  ultimately have run: "onMessage env wo w =
     (Inl (RangeError ''Invalid atomic access index''),
      ?w1\<lparr>port_queue := (if port_closed ?w1 then port_queue ?w1 else port_queue ?w1 @ [r]),
         port_closed := True,
         trace := trace ?w1 @ [PostMessage r, PortClose]\<rparr>)"
    by (rule onMessage_no_cell)
  have "job_trace env wo w = evs @ [PostMessage r, PortClose]"
    by (simp add: job_trace_def run)
  with evs show thesis using that by blast
qed

subsection \<open>Logs with a prefix of collaborator calls\<close>

lemma no_protocol_filter:
  assumes "filter is_protocol evs = []"
  shows "filter is_post evs = []" and "filter is_close evs = []"
    and "filter is_add evs = []" and "filter is_notify evs = []"
  using assms by (induction evs) (auto simp add: is_protocol_def split: if_splits)

lemma signal_only_after_post_append:
  assumes "filter is_protocol evs = []"
  shows "signal_only_after_post (evs @ rest) = signal_only_after_post rest"
  using assms by (induction evs) (auto simp add: is_protocol_def split: if_splits)

lemma occurs_before_append:
  assumes "filter P evs = []"
  shows "occurs_before P Q (evs @ rest) = occurs_before P Q rest"
  using assms by (induction evs) (auto split: if_splits)


subsection \<open>The sample jobs\<close>

lemmas run_defs = js_bind_def js_catch_def js_return_def js_throw_def emit_def call_def
  readFile_def require_def import_module_def load_module_def renderSync_def render_less_def
  render_stylus_def process_def port_postMessage_def port_close_def Atomics_add_def
  Atomics_notify_def renderCss_def optimizeCss_def postCssPlugins_def processCss_def
  postcssUrl_def postcssPresetEnv_def cssnano_def
  env_sample_def fs_sample_def job_for_def w_init_def Let_def

lemma processCss_a_css:
  "processCss env_sample (job_for ''/proj/a.css'') w_init =
     (Inr \<lparr>css = ''a{color:red}'', warnings = [''w'']\<rparr>,
      w_init\<lparr>trace :=
        [ReadFile ''/proj/a.css'',
         PostcssUrl \<lparr>url = Some CssUrl_inline\<rparr>,
         PostcssPresetEnv \<lparr>browsers = [''defaults''], autoprefixer = True, stage = 3\<rparr>,
         Cssnano \<lparr>preset = (''default'', \<lparr>svgo = False, calc = False\<rparr>)\<rparr>,
         PostcssProcess [Plugin ''postcss-url'', Plugin ''postcss-preset-env'', Plugin ''cssnano'']
           ''a{color:red}''
           \<lparr>from_path = ''/proj/a.css'', to_path = ''/proj/a.css''\<rparr>]\<rparr>)"
  by (simp add: run_defs extname_a_css)

lemma processCss_theme_scss:
  "fst (processCss env_sample (job_for ''/proj/theme.scss'') w_init) =
     Inr \<lparr>css = ''a{color:red}'', warnings = [''w'']\<rparr>"
  by (simp add: run_defs extname_theme_scss)

lemma processCss_missing_css:
  "processCss env_sample (job_for ''/proj/missing.css'') w_init =
     (Inl (Error ''ENOENT: no such file or directory''),
      w_init\<lparr>trace := [ReadFile ''/proj/missing.css'']\<rparr>)"
  by (simp add: run_defs extname_missing_css)

lemma processCss_broken_scss:
  "processCss env_sample (job_for ''/proj/broken.scss'') w_init =
     (Inl (Error ''File to import not found or unreadable: missing''),
      w_init\<lparr>trace :=
        [ReadFile ''/proj/broken.scss'', Require ''node-sass'', Import ''sass'',
         Import ''node-sass-tilde-importer'',
         SassRenderSync (Module ''sass'')
           \<lparr>sass_file = ''/proj/broken.scss'', data = ''@import missing;'',
            indentedSyntax = False, importer = Module ''node-sass-tilde-importer'',
            includePaths = Some [''/proj/styles'']\<rparr>]\<rparr>)"
  by (simp add: run_defs extname_broken_scss)

subsection \<open>Completion signal and reply port\<close>

text \<open>
  In every job, no increment and no notification comes before the first posted
  message, and there is at most one of each. In a job whose render and optimization
  succeed (the shared array having a cell 0), the result is posted once, then cell 0 is
  incremented once, by one atomic add of 1, and one notification is issued; the message
  is on the port queue when the cell changes.
\<close>

theorem signal_follows_post:
  "signal_only_after_post (job_trace env wo w) \<and>
   length (filter is_add (job_trace env wo w)) \<le> 1 \<and>
   length (filter is_notify (job_trace env wo w)) \<le> 1 \<and>
   (fst (processCss env wo w) = Inr r \<and> signal w \<noteq> [] \<longrightarrow>
      filter is_post (job_trace env wo w) = [PostMessage r] \<and>
      filter is_add (job_trace env wo w) = [AtomicsAdd 0 1] \<and>
      filter is_notify (job_trace env wo w) = [AtomicsNotify 0] \<and>
      occurs_before is_post is_add (job_trace env wo w) \<and>
      occurs_before is_post is_notify (job_trace env wo w) \<and>
      port_queue (snd (onMessage env wo w)) =
        (if port_closed w then port_queue w else port_queue w @ [r]) \<and>
      signal (snd (onMessage env wo w)) = (signal w)[0 := signal w ! 0 + 1] \<and>
      wakeups (snd (onMessage env wo w)) = wakeups w + 1)"
proof -
  have always: "signal_only_after_post (job_trace env wo w) \<and>
      length (filter is_add (job_trace env wo w)) \<le> 1 \<and>
      length (filter is_notify (job_trace env wo w)) \<le> 1"
  proof (cases "fst (processCss env wo w)")
    case (Inl e)
    then obtain evs where "job_trace env wo w = evs" and "filter is_protocol evs = []"
      by (rule job_trace_rejected)
    then show ?thesis
      using signal_only_after_post_append [of evs "[]"] by (simp add: no_protocol_filter)
  next
    case (Inr r')
    show ?thesis
    proof (cases "signal w = []")
      case True
      with Inr obtain evs where "job_trace env wo w = evs @ [PostMessage r', PortClose]"
        and "filter is_protocol evs = []"
        by (rule job_trace_no_cell)
      then show ?thesis
        by (simp add: signal_only_after_post_append no_protocol_filter)
    next
      case False
      with Inr obtain evs where
        "job_trace env wo w = evs @ [PostMessage r', PortClose, AtomicsAdd 0 1, AtomicsNotify 0]"
        and "filter is_protocol evs = []"
        by (rule job_trace_fulfilled)
      then show ?thesis
        by (simp add: signal_only_after_post_append no_protocol_filter)
    qed
  qed
  have fulfilled: "filter is_post (job_trace env wo w) = [PostMessage r] \<and>
      filter is_add (job_trace env wo w) = [AtomicsAdd 0 1] \<and>
      filter is_notify (job_trace env wo w) = [AtomicsNotify 0] \<and>
      occurs_before is_post is_add (job_trace env wo w) \<and>
      occurs_before is_post is_notify (job_trace env wo w) \<and>
      port_queue (snd (onMessage env wo w)) =
        (if port_closed w then port_queue w else port_queue w @ [r]) \<and>
      signal (snd (onMessage env wo w)) = (signal w)[0 := signal w ! 0 + 1] \<and>
      wakeups (snd (onMessage env wo w)) = wakeups w + 1"
    if ok: "fst (processCss env wo w) = Inr r" and cell: "signal w \<noteq> []"
  proof -
    from ok cell obtain evs where
      tr: "job_trace env wo w = evs @ [PostMessage r, PortClose, AtomicsAdd 0 1, AtomicsNotify 0]"
      and evs: "filter is_protocol evs = []"
      and st: "signal (snd (onMessage env wo w)) = (signal w)[0 := signal w ! 0 + 1]"
        "wakeups (snd (onMessage env wo w)) = wakeups w + 1"
        "port_queue (snd (onMessage env wo w)) =
           (if port_closed w then port_queue w else port_queue w @ [r])"
      by (rule job_trace_fulfilled)
    have "occurs_before is_post is_add (job_trace env wo w)"
      and "occurs_before is_post is_notify (job_trace env wo w)"
      by (simp_all add: tr occurs_before_append no_protocol_filter [OF evs])
    moreover have "filter is_post (job_trace env wo w) = [PostMessage r]"
      and "filter is_add (job_trace env wo w) = [AtomicsAdd 0 1]"
      and "filter is_notify (job_trace env wo w) = [AtomicsNotify 0]"
      by (simp_all add: tr no_protocol_filter [OF evs])
    ultimately show ?thesis using st by simp
  qed
  from always fulfilled show ?thesis by blast
qed

theorem signal_follows_post_witness:
  "fst (processCss env_sample (job_for ''/proj/theme.scss'') w_init) =
     Inr \<lparr>css = ''a{color:red}'', warnings = [''w'']\<rparr> \<and>
   signal w_init \<noteq> [] \<and>
   filter is_add (job_trace env_sample (job_for ''/proj/theme.scss'') w_init) = [AtomicsAdd 0 1] \<and>
   filter is_notify (job_trace env_sample (job_for ''/proj/theme.scss'') w_init) = [AtomicsNotify 0] \<and>
   occurs_before is_post is_add (job_trace env_sample (job_for ''/proj/theme.scss'') w_init) \<and>
   port_queue (snd (onMessage env_sample (job_for ''/proj/theme.scss'') w_init)) =
     [\<lparr>css = ''a{color:red}'', warnings = [''w'']\<rparr>] \<and>
   signal (snd (onMessage env_sample (job_for ''/proj/theme.scss'') w_init)) = [1] \<and>
   wakeups (snd (onMessage env_sample (job_for ''/proj/theme.scss'') w_init)) = 1"
proof -
  have cell: "signal w_init \<noteq> []" "signal w_init = [0]" "port_queue w_init = []"
    "\<not> port_closed w_init" "wakeups w_init = 0"
    by (simp_all add: w_init_def)
  from signal_follows_post [of env_sample "job_for ''/proj/theme.scss''" w_init
      "\<lparr>css = ''a{color:red}'', warnings = [''w'']\<rparr>"]
  show ?thesis
    using processCss_theme_scss cell by simp
qed

text \<open>
  C1. Not every job increments the completion cell once: the job for a file that cannot
  be read ends with the handler rejected at its \<^verbatim>\<open>await\<close>, and in its log there is
  no increment and no notification; the cell keeps its value.
\<close>

theorem no_signal_for_unreadable_file:
  "fst (onMessage env_sample (job_for ''/proj/missing.css'') w_init) =
     Inl (Error ''ENOENT: no such file or directory'') \<and>
   length (filter is_add (job_trace env_sample (job_for ''/proj/missing.css'') w_init)) = 0 \<and>
   length (filter is_notify (job_trace env_sample (job_for ''/proj/missing.css'') w_init)) = 0 \<and>
   signal (snd (onMessage env_sample (job_for ''/proj/missing.css'') w_init)) = signal w_init \<and>
   wakeups (snd (onMessage env_sample (job_for ''/proj/missing.css'') w_init)) = 0"
  unfolding job_trace_def onMessage_rejected [OF processCss_missing_css]
  by (simp add: w_init_def)

text \<open>
  C2. When the render or the optimization fails, the handler rejects with the same
  error and does nothing else: no message is posted, the cell is not incremented and no
  notification is issued, so a host waiting on the cell is not woken.
\<close>

theorem rejected_job_never_signals:
  assumes "fst (processCss env wo w) = Inl e"
  shows "fst (onMessage env wo w) = Inl e \<and>
     filter is_protocol (job_trace env wo w) = [] \<and>
     port_queue (snd (onMessage env wo w)) = port_queue w \<and>
     signal (snd (onMessage env wo w)) = signal w \<and>
     wakeups (snd (onMessage env wo w)) = wakeups w"
proof -
  from assms obtain evs where "job_trace env wo w = evs" and "filter is_protocol evs = []"
    and "onMessage env wo w = (Inl e, w\<lparr>trace := trace w @ evs\<rparr>)"
    by (rule job_trace_rejected)
  then show ?thesis by simp
qed

theorem rejected_job_never_signals_witness:
  "fst (processCss env_sample (job_for ''/proj/broken.scss'') w_init) =
     Inl (Error ''File to import not found or unreadable: missing'') \<and>
   fst (onMessage env_sample (job_for ''/proj/broken.scss'') w_init) =
     Inl (Error ''File to import not found or unreadable: missing'') \<and>
   filter is_protocol (job_trace env_sample (job_for ''/proj/broken.scss'') w_init) = [] \<and>
   port_queue (snd (onMessage env_sample (job_for ''/proj/broken.scss'') w_init)) = [] \<and>
   signal (snd (onMessage env_sample (job_for ''/proj/broken.scss'') w_init)) = [0] \<and>
   wakeups (snd (onMessage env_sample (job_for ''/proj/broken.scss'') w_init)) = 0"
proof -
  have failed: "fst (processCss env_sample (job_for ''/proj/broken.scss'') w_init) =
      Inl (Error ''File to import not found or unreadable: missing'')"
    by (simp add: processCss_broken_scss)
  from rejected_job_never_signals [OF failed] failed
  show ?thesis by (simp add: w_init_def)
qed

text \<open>
  C3. In a job whose render and optimization succeed, the calls on the port and on the
  shared array are, in this order: post the result, close the port, add 1 to cell 0,
  notify. The port is closed after the post and before the cell changes.
\<close>

theorem port_closed_before_signal:
  assumes "fst (processCss env wo w) = Inr r" and "signal w \<noteq> []"
  shows "fst (onMessage env wo w) = Inr () \<and>
     filter is_protocol (job_trace env wo w) =
       [PostMessage r, PortClose, AtomicsAdd 0 1, AtomicsNotify 0] \<and>
     occurs_before is_post is_close (job_trace env wo w) \<and>
     occurs_before is_close is_add (job_trace env wo w) \<and>
     \<not> occurs_before is_add is_close (job_trace env wo w) \<and>
     port_closed (snd (onMessage env wo w))"
proof -
  from assms obtain evs where
    tr: "job_trace env wo w = evs @ [PostMessage r, PortClose, AtomicsAdd 0 1, AtomicsNotify 0]"
    and evs: "filter is_protocol evs = []"
    and st: "port_closed (snd (onMessage env wo w))" "fst (onMessage env wo w) = Inr ()"
    by (rule job_trace_fulfilled)
  have "filter is_protocol (job_trace env wo w) =
      [PostMessage r, PortClose, AtomicsAdd 0 1, AtomicsNotify 0]"
    by (simp add: tr evs is_protocol_def)
  moreover have "occurs_before is_post is_close (job_trace env wo w)"
    and "occurs_before is_close is_add (job_trace env wo w)"
    and "\<not> occurs_before is_add is_close (job_trace env wo w)"
    by (simp_all add: tr occurs_before_append no_protocol_filter [OF evs])
  ultimately show ?thesis using st by simp
qed

theorem port_closed_before_signal_witness:
  "fst (processCss env_sample (job_for ''/proj/a.css'') w_init) =
     Inr \<lparr>css = ''a{color:red}'', warnings = [''w'']\<rparr> \<and>
   signal w_init \<noteq> [] \<and>
   filter is_protocol (job_trace env_sample (job_for ''/proj/a.css'') w_init) =
     [PostMessage \<lparr>css = ''a{color:red}'', warnings = [''w'']\<rparr>, PortClose,
      AtomicsAdd 0 1, AtomicsNotify 0] \<and>
   port_closed (snd (onMessage env_sample (job_for ''/proj/a.css'') w_init))"
proof -
  have ok: "fst (processCss env_sample (job_for ''/proj/a.css'') w_init) =
      Inr \<lparr>css = ''a{color:red}'', warnings = [''w'']\<rparr>"
    by (simp add: processCss_a_css)
  have cell: "signal w_init \<noteq> []"
    by (simp add: w_init_def)
  from port_closed_before_signal [OF ok cell] ok cell
  show ?thesis by simp
qed

text \<open>
  The job for \<^verbatim>\<open>/proj/a.css\<close> succeeds; its log has no increment before the
  close of the port, and the close before the increment.
\<close>

theorem signal_before_close_fails:
  "fst (onMessage env_sample (job_for ''/proj/a.css'') w_init) = Inr () \<and>
   \<not> occurs_before is_add is_close (job_trace env_sample (job_for ''/proj/a.css'') w_init) \<and>
   occurs_before is_close is_add (job_trace env_sample (job_for ''/proj/a.css'') w_init)"
proof -
  have cell: "signal (w_init\<lparr>trace := tr\<rparr>) \<noteq> []" for tr
    by (simp add: w_init_def)
  show ?thesis
    unfolding job_trace_def onMessage_fulfilled [OF processCss_a_css cell]
    by (simp add: w_init_def)
qed

end
